theory Spec2Isabelle
  imports Main "HOL-Library.Multiset" "HOL-Library.Sublist"
begin

section \<open>Dashboard home page: the log map and the rendered list\<close>

text \<open>
  Source: the \<open>Home\<close> component of the dashboard (\<open>src/unnamed/part_003\<close>).
  Only \<open>payload.event_id\<close> and \<open>created_at\<close> are read by the state updates and by
  the derived list, so the payload record keeps that one field.
\<close>

record LogPayload =
  event_id :: string

record LogEntry =
  row_id :: int
  created_at :: string
  payload :: LogPayload

text \<open>
  \<open>Map<string, LogEntry>\<close>: a JavaScript Map iterates in insertion order and holds
  each key once, so it is an association list in insertion order.
\<close>

type_synonym LogsMap = "(string \<times> LogEntry) list"

definition map_has :: "LogsMap \<Rightarrow> string \<Rightarrow> bool" where
  "map_has m k = (k \<in> set (map fst m))"

text \<open>\<open>Map.prototype.set\<close>: a present key keeps its place, a new key goes last.\<close>

fun map_set :: "LogsMap \<Rightarrow> string \<Rightarrow> LogEntry \<Rightarrow> LogsMap" where
  "map_set [] k v = [(k, v)]"
| "map_set (p # ps) k v = (if fst p = k then (k, v) # ps else p # map_set ps k v)"

definition map_values :: "LogsMap \<Rightarrow> LogEntry list" where
  "map_values m = map snd m"

text \<open>
  \<open>new Date(x.created_at).getTime()\<close> is a number of milliseconds, or NaN when the
  string is not a date. The parser is the parameter \<open>getTime\<close>, and \<open>None\<close> is NaN.
  The comparator of the sort, \<open>(a, b) => time b - time a\<close>: NaN as soon as one side
  is NaN.
\<close>

definition compareFn :: "(string \<Rightarrow> int option) \<Rightarrow> LogEntry \<Rightarrow> LogEntry \<Rightarrow> int option" where
  "compareFn getTime a b =
     (case getTime (created_at b) of
        None \<Rightarrow> None
      | Some tb \<Rightarrow> (case getTime (created_at a) of None \<Rightarrow> None | Some ta \<Rightarrow> Some (tb - ta)))"

text \<open>
  \<open>Array.prototype.sort\<close>. The language's \<open>SortCompare\<close> calls the comparator and
  reads NaN as \<open>+0\<close>. The sort is stable; with a consistent comparator its result is
  the one stable ordering, and with an inconsistent one (NaN makes it so) the order is
  left to the engine. The model is the stable insertion sort: an element goes before
  the first later element that it does not compare greater than. Only the order on
  rows without a date depends on this choice.
\<close>

definition SortCompare :: "('a \<Rightarrow> 'a \<Rightarrow> int option) \<Rightarrow> 'a \<Rightarrow> 'a \<Rightarrow> int" where
  "SortCompare comparefn x y = (case comparefn x y of None \<Rightarrow> 0 | Some v \<Rightarrow> v)"

fun insert_sorted :: "('a \<Rightarrow> 'a \<Rightarrow> int option) \<Rightarrow> 'a \<Rightarrow> 'a list \<Rightarrow> 'a list" where
  "insert_sorted comparefn x [] = [x]"
| "insert_sorted comparefn x (y # ys) =
     (if SortCompare comparefn x y \<le> 0 then x # y # ys
      else y # insert_sorted comparefn x ys)"

definition Array_sort :: "('a \<Rightarrow> 'a \<Rightarrow> int option) \<Rightarrow> 'a list \<Rightarrow> 'a list" where
  "Array_sort comparefn xs = foldr (insert_sorted comparefn) xs []"

text \<open>\<open>logs = Array.from(logsMap.values()).sort(...).slice(0, 25)\<close>.\<close>

definition logs :: "(string \<Rightarrow> int option) \<Rightarrow> LogsMap \<Rightarrow> LogEntry list" where
  "logs getTime logsMap = take 25 (Array_sort (compareFn getTime) (map_values logsMap))"

text \<open>
  The times of the rows that have one, in list order; the list is newest first when
  these times never increase. Every \<open>created_at\<close> of a list parses when none is NaN.
\<close>

definition parsed_times :: "(string \<Rightarrow> int option) \<Rightarrow> LogEntry list \<Rightarrow> int list" where
  "parsed_times getTime ls = List.map_filter (\<lambda>e. getTime (created_at e)) ls"

definition newest_first :: "(string \<Rightarrow> int option) \<Rightarrow> LogEntry list \<Rightarrow> bool" where
  "newest_first getTime ls = sorted_wrt (\<lambda>ta tb. tb \<le> ta) (parsed_times getTime ls)"

definition all_parse :: "(string \<Rightarrow> int option) \<Rightarrow> LogEntry list \<Rightarrow> bool" where
  "all_parse getTime ls = list_all (\<lambda>e. getTime (created_at e) \<noteq> None) ls"

text \<open>The body of \<open>data.forEach\<close> in \<open>fetchInitial\<close>.\<close>

definition add_if_absent :: "LogsMap \<Rightarrow> LogEntry \<Rightarrow> LogsMap" where
  "add_if_absent newMap log =
     (if \<not> map_has newMap (event_id (payload log))
      then map_set newMap (event_id (payload log)) log
      else newMap)"

text \<open>The updater of \<open>fetchInitial\<close>; \<open>data\<close> is null when the query failed.\<close>

definition fetchInitial :: "LogEntry list option \<Rightarrow> LogsMap \<Rightarrow> LogsMap" where
  "fetchInitial data prev =
     (case data of None \<Rightarrow> prev | Some rows \<Rightarrow> foldl add_if_absent prev rows)"

text \<open>The updater of the realtime \<open>INSERT\<close> handler.\<close>

definition onInsert :: "LogEntry \<Rightarrow> LogsMap \<Rightarrow> LogsMap" where
  "onInsert newLog prev =
     (if map_has prev (event_id (payload newLog)) then prev
      else map_set prev (event_id (payload newLog)) newLog)"

datatype update = FetchInitial "LogEntry list option" | RealtimeInsert LogEntry

fun setLogsMap :: "LogsMap \<Rightarrow> update \<Rightarrow> LogsMap" where
  "setLogsMap prev (FetchInitial data) = fetchInitial data prev"
| "setLogsMap prev (RealtimeInsert newLog) = onInsert newLog prev"

text \<open>The state after a sequence of updates, from \<open>useState(new Map())\<close>.\<close>

definition run_updates :: "update list \<Rightarrow> LogsMap" where
  "run_updates us = foldl setLogsMap [] us"

text \<open>The invariant of the map: keys are distinct and each value sits under its own event id.\<close>

definition keyed_by_event_id :: "LogsMap \<Rightarrow> bool" where
  "keyed_by_event_id m =
     (distinct (map fst m) \<and> map (\<lambda>p. event_id (payload (snd p))) m = map fst m)"

text \<open>
  A date parser for the instances below: the value of \<open>new Date(s).getTime()\<close> on
  three timestamps, and NaN on every other string (such as \<open>not a date\<close>).
\<close>

definition sample_getTime :: "string \<Rightarrow> int option" where
  "sample_getTime =
     map_of [(''2026-01-01T00:00:01Z'', 1767225601000),
             (''2026-01-01T00:00:02Z'', 1767225602000),
             (''2026-01-01T00:00:03Z'', 1767225603000)]"


section \<open>Dashboard middleware: JWT verification\<close>

text \<open>
  Source: \<open>src/unnamed/part_001\<close>. A \<open>Uint8Array\<close> is a list of byte values.
  \<open>TextEncoder.encode\<close> is UTF-8; for the code units below 256 that a \<open>char\<close> holds
  it writes one byte below 128 and two bytes from there on.
\<close>

type_synonym bytes = "nat list"

definition utf8_unit :: "char \<Rightarrow> bytes" where
  "utf8_unit c =
     (let n = (of_char c :: nat)
      in if n < 128 then [n] else [192 + n div 64, 128 + n mod 64])"

definition TextEncoder_encode :: "string \<Rightarrow> bytes" where
  "TextEncoder_encode s = concat (map utf8_unit s)"

text \<open>
  \<open>getJwtSecret\<close>, with the module variable \<open>cachedSecret\<close> passed in and returned.
  \<open>envSecret\<close> is \<open>process.env.SUPABASE_JWT_SECRET\<close>: undefined (\<open>None\<close>) or a string.
  \<open>if (cachedSecret)\<close> holds for every array object; \<open>!secret\<close> holds for undefined
  and for the empty string, and then nothing is cached.
\<close>

definition getJwtSecret :: "string option \<Rightarrow> bytes option \<Rightarrow> bytes \<times> bytes option" where
  "getJwtSecret envSecret cachedSecret =
     (case cachedSecret of
        Some c \<Rightarrow> (c, cachedSecret)
      | None \<Rightarrow>
          (case envSecret of
             None \<Rightarrow> ([], None)
           | Some secret \<Rightarrow>
               if secret = [] then ([], None)
               else (TextEncoder_encode secret, Some (TextEncoder_encode secret))))"

record 'p jwt_result =
  valid :: bool
  jwt_payload :: "'p option"

text \<open>
  \<open>verifyJwt\<close>. The library call \<open>jwtVerify(token, secret, {algorithms: ['HS256']})\<close>
  is the parameter \<open>jwtVerify\<close>: \<open>Some payload\<close> when it resolves, \<open>None\<close> when it
  throws (the \<open>catch\<close> branch).
\<close>

definition verifyJwt ::
  "(bytes \<Rightarrow> string \<Rightarrow> 'p option) \<Rightarrow> string option \<Rightarrow> bytes option \<Rightarrow> string
     \<Rightarrow> 'p jwt_result \<times> bytes option" where
  "verifyJwt jwtVerify envSecret cachedSecret token =
     (case getJwtSecret envSecret cachedSecret of
        (secret, cached') \<Rightarrow>
          if length secret = 0 then (\<lparr>valid = True, jwt_payload = None\<rparr>, cached')
          else (case jwtVerify secret token of
                  Some p \<Rightarrow> (\<lparr>valid = True, jwt_payload = Some p\<rparr>, cached')
                | None \<Rightarrow> (\<lparr>valid = False, jwt_payload = None\<rparr>, cached')))"

text \<open>Successive calls in one process: the cache of each call is handed to the next.\<close>

fun verifyJwt_calls ::
  "(bytes \<Rightarrow> string \<Rightarrow> 'p option) \<Rightarrow> string option \<Rightarrow> bytes option \<Rightarrow> string list
     \<Rightarrow> 'p jwt_result list" where
  "verifyJwt_calls jwtVerify envSecret cachedSecret [] = []"
| "verifyJwt_calls jwtVerify envSecret cachedSecret (token # tokens) =
     (case verifyJwt jwtVerify envSecret cachedSecret token of
        (r, cached') \<Rightarrow> r # verifyJwt_calls jwtVerify envSecret cached' tokens)"

record cookie =
  cookie_name :: string
  cookie_value :: string

record request =
  pathname :: string
  cookies :: "cookie list"

text \<open>
  What \<open>middleware\<close> returns: a redirect to \<open>/login\<close>, the same with the auth cookies
  deleted (the names are listed), a redirect to \<open>/\<close>, or the pass-through response
  with the \<open>x-pathname\<close> header.
\<close>

datatype response =
    RedirectLogin
  | RedirectLoginClearing "string list"
  | RedirectHome
  | NextResponse string

text \<open>
  The library calls of \<open>middleware\<close>: \<open>jose\<close>'s verifier, the \<open>localeCompare\<close> sort of
  the cookies, and the parse of the combined cookie value (\<open>JSON.parse\<close>, then
  \<open>JSON.parse(atob(...))\<close>, else null) followed by \<open>tokenData?.access_token\<close> and the
  test \<open>typeof jwt === 'string'\<close>: \<open>Some jwt\<close> when that yields a string.
\<close>

record 'p deps =
  jose_jwtVerify :: "bytes \<Rightarrow> string \<Rightarrow> 'p option"
  sortByName :: "cookie list \<Rightarrow> cookie list"
  accessTokenOf :: "string \<Rightarrow> string option"

text \<open>
  The block under \<open>if (authCookies.length > 0)\<close>: the result is \<open>False\<close> exactly when the
  branch \<open>if (!valid)\<close> is taken. An empty \<open>jwt\<close> is falsy and is not verified.
\<close>

definition jwt_check ::
  "'p deps \<Rightarrow> string option \<Rightarrow> bytes option \<Rightarrow> cookie list \<Rightarrow> bool \<times> bytes option" where
  "jwt_check d envSecret cachedSecret authCookies =
     (if length authCookies > 0 then
        (case accessTokenOf d (concat (map cookie_value authCookies)) of
           None \<Rightarrow> (True, cachedSecret)
         | Some jwt \<Rightarrow>
             if jwt = [] then (True, cachedSecret)
             else (case verifyJwt (jose_jwtVerify d) envSecret cachedSecret jwt of
                     (r, cached') \<Rightarrow> (valid r, cached')))
      else (True, cachedSecret))"

text \<open>
  \<open>middleware\<close>; \<open>user\<close> says whether \<open>supabase.auth.getUser()\<close> returned a user, and
  \<open>cookiePrefix\<close> is \<open>sb-<projectRef>-auth-token\<close>.
\<close>

definition middleware ::
  "'p deps \<Rightarrow> string option \<Rightarrow> string \<Rightarrow> bool \<Rightarrow> bytes option \<Rightarrow> request
     \<Rightarrow> response \<times> bytes option" where
  "middleware d envSecret cookiePrefix user cachedSecret req =
     (if \<not> user \<and> \<not> prefix ''/login'' (pathname req) then (RedirectLogin, cachedSecret)
      else if user then
        (let authCookies =
               sortByName d (filter (\<lambda>c. prefix cookiePrefix (cookie_name c)) (cookies req))
         in case jwt_check d envSecret cachedSecret authCookies of
              (ok, cached') \<Rightarrow>
                if \<not> ok then (RedirectLoginClearing (map cookie_name authCookies), cached')
                else if prefix ''/login'' (pathname req) then (RedirectHome, cached')
                else (NextResponse (pathname req), cached'))
      else (NextResponse (pathname req), cachedSecret))"

text \<open>The variable is "not set" for the code when \<open>!secret\<close> holds.\<close>

definition secret_unset :: "string option \<Rightarrow> bool" where
  "secret_unset envSecret = (envSecret = None \<or> envSecret = Some [])"


section \<open>Enforcer: two workers confirming a BLOCK for one actor\<close>

text \<open>
  The Enforcer is \<open>api/agents/enforcer.py\<close>, which is not among the sources; this
  section follows sections 4.6, 5 and 6 of the specification. The steps of the two
  workers fall within the same second, so a TTL is the number of seconds written with
  the key.
\<close>

type_synonym actor = string

datatype ban_state = NONE | PROVISIONAL | CONFIRMED

record ban_record =
  ban_state :: ban_state
  ban_ttl :: nat

record strike_counter =
  strike_count :: nat
  strike_ttl :: nat

text \<open>The shared store: the ban key and the strike key of each actor.\<close>

record store =
  bans :: "actor \<rightharpoonup> ban_record"
  strikes :: "actor \<rightharpoonup> strike_counter"

text \<open>
  Modelled from the spec: the order of ban states of section 5, "a monotonically
  comparable ban strength (NONE < PROVISIONAL < CONFIRMED)"; the Enforcer's code is
  missing.
\<close>

definition strength :: "ban_state \<Rightarrow> nat" where
  "strength s = (case s of NONE \<Rightarrow> 0 | PROVISIONAL \<Rightarrow> 1 | CONFIRMED \<Rightarrow> 2)"

text \<open>
  Modelled from the spec: the reading of the ban key (section 6), "absence of the key
  means NONE"; the Enforcer's code is missing.
\<close>

definition ban_of :: "store \<Rightarrow> actor \<Rightarrow> ban_record" where
  "ban_of st a =
     (case bans st a of None \<Rightarrow> \<lparr>ban_state = NONE, ban_ttl = 0\<rparr> | Some r \<Rightarrow> r)"

definition strikes_of :: "store \<Rightarrow> actor \<Rightarrow> nat" where
  "strikes_of st a = (case strikes st a of None \<Rightarrow> 0 | Some c \<Rightarrow> strike_count c)"

text \<open>
  Modelled from the spec: the comparison of the conditional write (sections 4.6 and 5),
  strength first and then TTL, "so the stronger/newer state always wins"; a write of
  an equal or weaker record is a no-op ("set only if not already at an
  equal-or-greater confirmed state"). The Enforcer's code is missing.
\<close>

definition stronger :: "ban_record \<Rightarrow> ban_record \<Rightarrow> bool" where
  "stronger new old =
     (strength (ban_state old) < strength (ban_state new) \<or>
      (strength (ban_state old) = strength (ban_state new) \<and> ban_ttl old < ban_ttl new))"

text \<open>
  Modelled from the spec: the Enforcer's write to the ban key, "a single atomic
  conditional operation against the shared store" (section 5); the Enforcer's code is
  missing.
\<close>

definition conditional_write :: "store \<Rightarrow> actor \<Rightarrow> ban_record \<Rightarrow> store" where
  "conditional_write st a new =
     (if stronger new (ban_of st a) then st\<lparr>bans := (bans st)(a \<mapsto> new)\<rparr> else st)"

text \<open>
  The write that section 5 rules out, a plain overwrite; it is here only to be
  compared with the conditional write.
\<close>

definition plain_write :: "store \<Rightarrow> actor \<Rightarrow> ban_record \<Rightarrow> store" where
  "plain_write st a new = st\<lparr>bans := (bans st)(a \<mapsto> new)\<rparr>"

definition strike_window :: nat where
  "strike_window = 604800"

text \<open>
  Modelled from the spec: the strike increment rule of section 4.6, "increment the
  actor's StrikeCounter (creating it with TTL 7 days if absent, otherwise extending TTL
  to 7 days from now)", one atomic operation that returns the new count; the Enforcer's
  code is missing.
\<close>

definition increment_strikes :: "store \<Rightarrow> actor \<Rightarrow> nat \<times> store" where
  "increment_strikes st a =
     (let n = strikes_of st a + 1
      in (n, st\<lparr>strikes := (strikes st)(a \<mapsto> \<lparr>strike_count = n, strike_ttl = strike_window\<rparr>)\<rparr>))"

text \<open>
  Modelled from the spec: the ban TTL chosen from the post-increment strike count
  (section 4.6), 3600 s for 1 or 2 and 86400 s from 3 on; the Enforcer's code is missing.
\<close>

definition ttl_for :: "nat \<Rightarrow> nat" where
  "ttl_for n = (if 3 \<le> n then 86400 else 3600)"

text \<open>
  Two workers, each confirming a BLOCK for the same actor. A worker first increments
  the strike counter and keeps the count it got, then writes the ban key; each of the
  two operations is atomic, and the scheduler picks which worker moves next.
\<close>

datatype worker = A | B

datatype pc = Ready | Incremented nat | Done

record system =
  shared :: store
  pcA :: pc
  pcB :: pc

definition pc_of :: "system \<Rightarrow> worker \<Rightarrow> pc" where
  "pc_of sys w = (case w of A \<Rightarrow> pcA sys | B \<Rightarrow> pcB sys)"

definition set_pc :: "system \<Rightarrow> worker \<Rightarrow> pc \<Rightarrow> system" where
  "set_pc sys w p = (case w of A \<Rightarrow> sys\<lparr>pcA := p\<rparr> | B \<Rightarrow> sys\<lparr>pcB := p\<rparr>)"

text \<open>
  Modelled from the spec: one move of a worker in the confirm transition of section
  4.6; the write to the ban key is a parameter, so that the conditional write can be
  compared with the plain one. The Enforcer's code is missing.
\<close>

definition step ::
  "(store \<Rightarrow> actor \<Rightarrow> ban_record \<Rightarrow> store) \<Rightarrow> actor \<Rightarrow> system \<Rightarrow> worker \<Rightarrow> system" where
  "step write a sys w =
     (case pc_of sys w of
        Ready \<Rightarrow>
          (case increment_strikes (shared sys) a of
             (n, st') \<Rightarrow> set_pc (sys\<lparr>shared := st'\<rparr>) w (Incremented n))
      | Incremented n \<Rightarrow>
          set_pc
            (sys\<lparr>shared := write (shared sys) a \<lparr>ban_state = CONFIRMED, ban_ttl = ttl_for n\<rparr>\<rparr>)
            w Done
      | Done \<Rightarrow> sys)"

text \<open>A schedule names the worker that moves next; both workers start ready.\<close>

definition run ::
  "(store \<Rightarrow> actor \<Rightarrow> ban_record \<Rightarrow> store) \<Rightarrow> actor \<Rightarrow> store \<Rightarrow> worker list \<Rightarrow> system" where
  "run write a st sched = foldl (step write a) \<lparr>shared = st, pcA = Ready, pcB = Ready\<rparr> sched"

text \<open>The six ways to interleave the two moves of each worker.\<close>

definition interleavings :: "worker list list" where
  "interleavings =
     [[A, A, B, B], [A, B, A, B], [A, B, B, A], [B, A, A, B], [B, A, B, A], [B, B, A, A]]"

definition each_twice :: "worker list \<Rightarrow> bool" where
  "each_twice sched = (count_list sched A = 2 \<and> count_list sched B = 2)"


section \<open>Proofs: the log list\<close>

lemma map_set_absent: "\<not> map_has m k \<Longrightarrow> map_set m k v = m @ [(k, v)]"
  by (induction m) (auto simp: map_has_def)

lemma keyed_add_if_absent: "keyed_by_event_id m \<Longrightarrow> keyed_by_event_id (add_if_absent m e)"
  by (auto simp: add_if_absent_def map_set_absent keyed_by_event_id_def map_has_def)

lemma keyed_fold: "keyed_by_event_id m \<Longrightarrow> keyed_by_event_id (foldl add_if_absent m rows)"
  by (induction rows arbitrary: m) (auto simp: keyed_add_if_absent)

lemma onInsert_add: "onInsert e m = add_if_absent m e"
  by (simp add: onInsert_def add_if_absent_def)

lemma keyed_setLogsMap: "keyed_by_event_id m \<Longrightarrow> keyed_by_event_id (setLogsMap m u)"
  by (cases u)
    (auto simp: fetchInitial_def onInsert_add keyed_fold keyed_add_if_absent split: option.splits)

lemma keyed_foldl_updates:
  "keyed_by_event_id m \<Longrightarrow> keyed_by_event_id (foldl setLogsMap m us)"
  by (induction us arbitrary: m) (auto simp: keyed_setLogsMap)

lemma keyed_run: "keyed_by_event_id (run_updates us)"
  unfolding run_updates_def by (rule keyed_foldl_updates) (simp add: keyed_by_event_id_def)

lemma keyed_values_distinct:
  assumes k: "keyed_by_event_id m"
  shows "distinct (map (\<lambda>e. event_id (payload e)) (map_values m))"
proof -
  have "map (\<lambda>e. event_id (payload e)) (map_values m) = map (\<lambda>p. event_id (payload (snd p))) m"
    by (simp add: map_values_def comp_def)
  also have "\<dots> = map fst m"
    using k by (simp only: keyed_by_event_id_def)
  finally show ?thesis
    using k by (simp only: keyed_by_event_id_def)
qed

lemma mset_insert_sorted: "mset (insert_sorted c x ys) = add_mset x (mset ys)"
  by (induction ys) simp_all

lemma mset_Array_sort: "mset (Array_sort c xs) = mset xs"
  by (induction xs) (simp_all add: Array_sort_def mset_insert_sorted)

lemma distinct_map_Array_sort:
  assumes d: "distinct (map f xs)"
  shows "distinct (map f (Array_sort c xs))"
proof -
  have "mset (map f (Array_sort c xs)) = mset (map f xs)"
    by (simp add: mset_Array_sort)
  from mset_eq_imp_distinct_iff [OF this] d show ?thesis
    by simp
qed

lemma logs_distinct:
  "keyed_by_event_id m \<Longrightarrow> distinct (map (\<lambda>e. event_id (payload e)) (logs getTime m))"
  unfolding logs_def take_map [symmetric]
  by (intro distinct_take distinct_map_Array_sort keyed_values_distinct)

lemma logs_length: "length (logs getTime m) \<le> 25"
  by (simp add: logs_def)

lemma present_unchanged:
  "map_has m (event_id (payload e)) \<Longrightarrow>
   add_if_absent m e = m \<and> setLogsMap m (RealtimeInsert e) = m"
  by (simp add: onInsert_def add_if_absent_def)

text \<open>When both rows have a time the comparator orders by the negated time.\<close>

lemma SortCompare_parsed:
  "g (created_at x) = Some tx \<Longrightarrow> g (created_at y) = Some ty \<Longrightarrow>
   (SortCompare (compareFn g) x y \<le> 0) = (- tx \<le> - ty)"
  by (simp add: SortCompare_def compareFn_def)

lemma insert_sorted_parsed:
  "all_parse g (x # ys) \<Longrightarrow>
   insert_sorted (compareFn g) x ys = insort_key (\<lambda>a. - the (g (created_at a))) x ys"
proof (induction ys)
  case Nil
  then show ?case by simp
next
  case (Cons y ys)
  from Cons.prems obtain tx ty where t: "g (created_at x) = Some tx" "g (created_at y) = Some ty"
    by (auto simp: all_parse_def)
  from Cons.prems have "all_parse g (x # ys)"
    by (simp add: all_parse_def)
  with Cons.IH t show ?case
    by (simp add: SortCompare_parsed [OF t])
qed

lemma all_parse_set: "all_parse g xs = (\<forall>e \<in> set xs. g (created_at e) \<noteq> None)"
  by (simp add: all_parse_def list_all_iff)

lemma all_parse_Array_sort: "all_parse g (Array_sort c xs) = all_parse g xs"
proof -
  have "set (Array_sort c xs) = set xs"
    by (rule mset_eq_setD) (rule mset_Array_sort)
  then show ?thesis
    by (simp add: all_parse_set)
qed

lemma Array_sort_parsed:
  "all_parse g xs \<Longrightarrow>
   Array_sort (compareFn g) xs = sort_key (\<lambda>a. - the (g (created_at a))) xs"
proof (induction xs)
  case Nil
  then show ?case by (simp add: Array_sort_def)
next
  case (Cons x xs)
  from Cons.prems have xs: "all_parse g xs"
    by (simp add: all_parse_def)
  have "set (Array_sort (compareFn g) xs) = set xs"
    by (rule mset_eq_setD) (rule mset_Array_sort)
  with Cons.prems have "all_parse g (x # Array_sort (compareFn g) xs)"
    by (simp add: all_parse_set)
  from insert_sorted_parsed [OF this] Cons.IH [OF xs] show ?case
    by (simp add: Array_sort_def)
qed

lemma parsed_times_all:
  "all_parse g ls \<Longrightarrow> parsed_times g ls = map (\<lambda>a. the (g (created_at a))) ls"
  by (induction ls) (auto simp: all_parse_def parsed_times_def)

lemma all_parse_take: "all_parse g ls \<Longrightarrow> all_parse g (take n ls)"
  by (auto simp: all_parse_set dest: in_set_takeD)

lemma logs_all_parse: "all_parse g (map_values m) \<Longrightarrow> all_parse g (logs g m)"
  by (simp add: logs_def all_parse_take all_parse_Array_sort)

lemma sorted_desc_sort_key:
  fixes t :: "'a \<Rightarrow> int"
  shows "sorted_wrt (\<lambda>ta tb. tb \<le> ta) (map t (sort_key (\<lambda>a. - t a) xs))"
proof -
  have "sorted (map (\<lambda>a. - t a) (sort_key (\<lambda>a. - t a) xs))"
    by (rule sorted_sort_key)
  then show ?thesis
    by (simp add: sorted_map sorted_wrt_map)
qed

lemma logs_newest_first:
  assumes p: "all_parse g (map_values m)"
  shows "newest_first g (logs g m)"
proof -
  let ?t = "\<lambda>a. the (g (created_at a))"
  have "parsed_times g (logs g m) = map ?t (logs g m)"
    by (rule parsed_times_all [OF logs_all_parse [OF p]])
  also have "\<dots> = take 25 (map ?t (sort_key (\<lambda>a. - ?t a) (map_values m)))"
    by (simp add: logs_def Array_sort_parsed [OF p] take_map)
  finally show ?thesis
    unfolding newest_first_def
    by (simp add: sorted_desc_sort_key)
qed

text \<open>
  C10, as amended. After every sequence of state updates of the home page (initial
  fetches and realtime inserts, from the empty map), the rendered list \<open>logs\<close> holds
  each \<open>event_id\<close> at most once and has at most 25 entries; a fetched row or a realtime
  insert whose \<open>event_id\<close> is already a key leaves the map as it was; and when every
  \<open>created_at\<close> in the map parses as a date, every rendered row has a time and the
  times run from newest to oldest.
\<close>

theorem home_logs_unique_bounded_sorted_when_dates_parse:
  "distinct (map (\<lambda>e. event_id (payload e)) (logs getTime (run_updates us))) \<and>
   length (logs getTime (run_updates us)) \<le> 25 \<and>
   (map_has (run_updates us) (event_id (payload e)) \<longrightarrow>
      add_if_absent (run_updates us) e = run_updates us \<and>
      setLogsMap (run_updates us) (RealtimeInsert e) = run_updates us) \<and>
   (all_parse getTime (map_values (run_updates us)) \<longrightarrow>
      newest_first getTime (logs getTime (run_updates us)) \<and>
      length (parsed_times getTime (logs getTime (run_updates us))) =
        length (logs getTime (run_updates us)))"
proof (intro conjI impI)
  show "distinct (map (\<lambda>e. event_id (payload e)) (logs getTime (run_updates us)))"
    by (rule logs_distinct [OF keyed_run])
  show "length (logs getTime (run_updates us)) \<le> 25"
    by (rule logs_length)
next
  assume h: "map_has (run_updates us) (event_id (payload e))"
  from present_unchanged [OF h] show "add_if_absent (run_updates us) e = run_updates us"
    by simp
  from present_unchanged [OF h]
  show "setLogsMap (run_updates us) (RealtimeInsert e) = run_updates us"
    by simp
next
  assume p: "all_parse getTime (map_values (run_updates us))"
  show "newest_first getTime (logs getTime (run_updates us))"
    by (rule logs_newest_first [OF p])
  show "length (parsed_times getTime (logs getTime (run_updates us))) =
      length (logs getTime (run_updates us))"
    by (simp add: parsed_times_all [OF logs_all_parse [OF p]])
qed

text \<open>
  An instance: two fetched rows and one insert, then a redelivered \<open>evt_a\<close>. The list
  shows rows 2, 3, 1 (03Z, 02Z, 01Z).
\<close>

theorem home_logs_unique_bounded_sorted_when_dates_parse_witness:
  "map_has
     (run_updates
     [FetchInitial (Some
        [\<lparr>row_id = 1, created_at = ''2026-01-01T00:00:01Z'', payload = \<lparr>event_id = ''evt_a''\<rparr>\<rparr>,
         \<lparr>row_id = 2, created_at = ''2026-01-01T00:00:03Z'', payload = \<lparr>event_id = ''evt_b''\<rparr>\<rparr>]),
      RealtimeInsert
        \<lparr>row_id = 3, created_at = ''2026-01-01T00:00:02Z'', payload = \<lparr>event_id = ''evt_c''\<rparr>\<rparr>])
     ''evt_a'' \<and>
   all_parse sample_getTime
     (map_values (run_updates
     [FetchInitial (Some
        [\<lparr>row_id = 1, created_at = ''2026-01-01T00:00:01Z'', payload = \<lparr>event_id = ''evt_a''\<rparr>\<rparr>,
         \<lparr>row_id = 2, created_at = ''2026-01-01T00:00:03Z'', payload = \<lparr>event_id = ''evt_b''\<rparr>\<rparr>]),
      RealtimeInsert
        \<lparr>row_id = 3, created_at = ''2026-01-01T00:00:02Z'', payload = \<lparr>event_id = ''evt_c''\<rparr>\<rparr>])) \<and>
   setLogsMap
     (run_updates
     [FetchInitial (Some
        [\<lparr>row_id = 1, created_at = ''2026-01-01T00:00:01Z'', payload = \<lparr>event_id = ''evt_a''\<rparr>\<rparr>,
         \<lparr>row_id = 2, created_at = ''2026-01-01T00:00:03Z'', payload = \<lparr>event_id = ''evt_b''\<rparr>\<rparr>]),
      RealtimeInsert
        \<lparr>row_id = 3, created_at = ''2026-01-01T00:00:02Z'', payload = \<lparr>event_id = ''evt_c''\<rparr>\<rparr>])
     (RealtimeInsert
        \<lparr>row_id = 4, created_at = ''2026-01-01T00:00:03Z'', payload = \<lparr>event_id = ''evt_a''\<rparr>\<rparr>) =
   run_updates
     [FetchInitial (Some
        [\<lparr>row_id = 1, created_at = ''2026-01-01T00:00:01Z'', payload = \<lparr>event_id = ''evt_a''\<rparr>\<rparr>,
         \<lparr>row_id = 2, created_at = ''2026-01-01T00:00:03Z'', payload = \<lparr>event_id = ''evt_b''\<rparr>\<rparr>]),
      RealtimeInsert
        \<lparr>row_id = 3, created_at = ''2026-01-01T00:00:02Z'', payload = \<lparr>event_id = ''evt_c''\<rparr>\<rparr>] \<and>
   map row_id
     (logs sample_getTime (run_updates
     [FetchInitial (Some
        [\<lparr>row_id = 1, created_at = ''2026-01-01T00:00:01Z'', payload = \<lparr>event_id = ''evt_a''\<rparr>\<rparr>,
         \<lparr>row_id = 2, created_at = ''2026-01-01T00:00:03Z'', payload = \<lparr>event_id = ''evt_b''\<rparr>\<rparr>]),
      RealtimeInsert
        \<lparr>row_id = 3, created_at = ''2026-01-01T00:00:02Z'', payload = \<lparr>event_id = ''evt_c''\<rparr>\<rparr>])) =
   [2, 3, 1] \<and>
   newest_first sample_getTime
     (logs sample_getTime (run_updates
     [FetchInitial (Some
        [\<lparr>row_id = 1, created_at = ''2026-01-01T00:00:01Z'', payload = \<lparr>event_id = ''evt_a''\<rparr>\<rparr>,
         \<lparr>row_id = 2, created_at = ''2026-01-01T00:00:03Z'', payload = \<lparr>event_id = ''evt_b''\<rparr>\<rparr>]),
      RealtimeInsert
        \<lparr>row_id = 3, created_at = ''2026-01-01T00:00:02Z'', payload = \<lparr>event_id = ''evt_c''\<rparr>\<rparr>]))"
  using home_logs_unique_bounded_sorted_when_dates_parse
    [of sample_getTime
     "[FetchInitial (Some
        [\<lparr>row_id = 1, created_at = ''2026-01-01T00:00:01Z'', payload = \<lparr>event_id = ''evt_a''\<rparr>\<rparr>,
         \<lparr>row_id = 2, created_at = ''2026-01-01T00:00:03Z'', payload = \<lparr>event_id = ''evt_b''\<rparr>\<rparr>]),
      RealtimeInsert
        \<lparr>row_id = 3, created_at = ''2026-01-01T00:00:02Z'', payload = \<lparr>event_id = ''evt_c''\<rparr>\<rparr>]"
     "\<lparr>row_id = 4, created_at = ''2026-01-01T00:00:03Z'', payload = \<lparr>event_id = ''evt_a''\<rparr>\<rparr>"]
  by (simp add: run_updates_def fetchInitial_def add_if_absent_def onInsert_def map_has_def
      logs_def map_values_def all_parse_def sample_getTime_def Array_sort_def SortCompare_def
      compareFn_def)

text \<open>
  The claim as stated fails on a row whose \<open>created_at\<close> is not a date. Three inserts:
  row 1 at 01Z, row 2 with \<open>not a date\<close>, row 3 at 03Z. Every comparison that the sort
  makes involves row 2 and is NaN, read as 0, so nothing moves: the list is 1, 2, 3, and
  the newer row 3 stands after the older row 1.
\<close>

theorem home_logs_sorted_counterexample:
  "map row_id
     (logs sample_getTime (run_updates
     [RealtimeInsert
        \<lparr>row_id = 1, created_at = ''2026-01-01T00:00:01Z'', payload = \<lparr>event_id = ''evt_a''\<rparr>\<rparr>,
      RealtimeInsert
        \<lparr>row_id = 2, created_at = ''not a date'', payload = \<lparr>event_id = ''evt_b''\<rparr>\<rparr>,
      RealtimeInsert
        \<lparr>row_id = 3, created_at = ''2026-01-01T00:00:03Z'', payload = \<lparr>event_id = ''evt_c''\<rparr>\<rparr>])) =
   [1, 2, 3] \<and>
   parsed_times sample_getTime
     (logs sample_getTime (run_updates
     [RealtimeInsert
        \<lparr>row_id = 1, created_at = ''2026-01-01T00:00:01Z'', payload = \<lparr>event_id = ''evt_a''\<rparr>\<rparr>,
      RealtimeInsert
        \<lparr>row_id = 2, created_at = ''not a date'', payload = \<lparr>event_id = ''evt_b''\<rparr>\<rparr>,
      RealtimeInsert
        \<lparr>row_id = 3, created_at = ''2026-01-01T00:00:03Z'', payload = \<lparr>event_id = ''evt_c''\<rparr>\<rparr>])) =
   [1767225601000, 1767225603000] \<and>
   \<not> newest_first sample_getTime
     (logs sample_getTime (run_updates
     [RealtimeInsert
        \<lparr>row_id = 1, created_at = ''2026-01-01T00:00:01Z'', payload = \<lparr>event_id = ''evt_a''\<rparr>\<rparr>,
      RealtimeInsert
        \<lparr>row_id = 2, created_at = ''not a date'', payload = \<lparr>event_id = ''evt_b''\<rparr>\<rparr>,
      RealtimeInsert
        \<lparr>row_id = 3, created_at = ''2026-01-01T00:00:03Z'', payload = \<lparr>event_id = ''evt_c''\<rparr>\<rparr>]))"
  by (simp add: run_updates_def add_if_absent_def onInsert_def map_has_def logs_def
      map_values_def sample_getTime_def Array_sort_def SortCompare_def compareFn_def
      newest_first_def parsed_times_def)


section \<open>Proofs: JWT verification\<close>

lemma utf8_unit_nonempty: "utf8_unit c \<noteq> []"
  by (simp add: utf8_unit_def Let_def)

lemma encode_nonempty: "s \<noteq> [] \<Longrightarrow> TextEncoder_encode s \<noteq> []"
  by (cases s) (simp_all add: TextEncoder_encode_def utf8_unit_nonempty)

lemma getJwtSecret_unset:
  "secret_unset envSecret \<Longrightarrow> getJwtSecret envSecret None = ([], None)"
  by (auto simp: secret_unset_def getJwtSecret_def)

lemma verifyJwt_unset:
  "secret_unset envSecret \<Longrightarrow>
   verifyJwt jv envSecret None token = (\<lparr>valid = True, jwt_payload = None\<rparr>, None)"
  by (simp add: verifyJwt_def getJwtSecret_unset)

lemma verifyJwt_calls_unset:
  "secret_unset envSecret \<Longrightarrow>
   verifyJwt_calls jv envSecret None tokens =
     map (\<lambda>_. \<lparr>valid = True, jwt_payload = None\<rparr>) tokens"
  by (induction tokens) (simp_all add: verifyJwt_unset)

lemma jwt_check_unset:
  "secret_unset envSecret \<Longrightarrow> jwt_check d envSecret None cs = (True, None)"
  by (simp add: jwt_check_def verifyJwt_unset split: option.splits)

lemma middleware_unset:
  "secret_unset envSecret \<Longrightarrow>
   fst (middleware d envSecret cp user None req) \<noteq> RedirectLoginClearing ns"
  by (simp add: middleware_def jwt_check_unset Let_def)

lemma verifyJwt_invalid_iff:
  "(\<not> valid (fst (verifyJwt jv envSecret None token))) =
   (\<exists>secret. envSecret = Some secret \<and> secret \<noteq> [] \<and>
      jv (TextEncoder_encode secret) token = None)"
  by (auto simp: verifyJwt_def getJwtSecret_def encode_nonempty split: option.splits)

text \<open>
  C9. Started with an empty cache, and with \<open>SUPABASE_JWT_SECRET\<close> undefined or empty,
  \<open>verifyJwt\<close> answers \<open>{ valid: true }\<close> for every token and every verifier, in every
  later call too, and \<open>middleware\<close> never takes the branch that clears the session;
  \<open>verifyJwt\<close> answers \<open>{ valid: false }\<close> exactly when a non-empty secret is set and
  the library rejects the token under it.
\<close>

theorem verifyJwt_skipped_when_secret_unset:
  "(secret_unset envSecret \<longrightarrow>
      verifyJwt jv envSecret None token = (\<lparr>valid = True, jwt_payload = None\<rparr>, None) \<and>
      verifyJwt_calls jv envSecret None tokens =
        map (\<lambda>_. \<lparr>valid = True, jwt_payload = None\<rparr>) tokens \<and>
      fst (middleware d envSecret cookiePrefix user None req) \<noteq> RedirectLoginClearing names) \<and>
   ((\<not> valid (fst (verifyJwt jv envSecret None token))) =
      (\<exists>secret. envSecret = Some secret \<and> secret \<noteq> [] \<and>
         jv (TextEncoder_encode secret) token = None))"
proof (intro conjI impI)
  assume u: "secret_unset envSecret"
  show "verifyJwt jv envSecret None token = (\<lparr>valid = True, jwt_payload = None\<rparr>, None)"
    by (rule verifyJwt_unset [OF u])
  show "verifyJwt_calls jv envSecret None tokens =
      map (\<lambda>_. \<lparr>valid = True, jwt_payload = None\<rparr>) tokens"
    by (rule verifyJwt_calls_unset [OF u])
  show "fst (middleware d envSecret cookiePrefix user None req) \<noteq> RedirectLoginClearing names"
    by (rule middleware_unset [OF u])
next
  show "(\<not> valid (fst (verifyJwt jv envSecret None token))) =
      (\<exists>secret. envSecret = Some secret \<and> secret \<noteq> [] \<and>
         jv (TextEncoder_encode secret) token = None)"
    by (rule verifyJwt_invalid_iff)
qed

text \<open>
  An instance: a verifier that rejects every token, no secret, a logged-in user whose
  cookie carries the token \<open>forged\<close>. The request passes; with the secret \<open>s3cret\<close> set
  the same token is rejected.
\<close>

theorem verifyJwt_skipped_when_secret_unset_witness:
  "secret_unset None \<and>
   verifyJwt (\<lambda>secret token. None :: unit option) None None ''forged'' =
     (\<lparr>valid = True, jwt_payload = None\<rparr>, None) \<and>
   fst (middleware
          \<lparr>jose_jwtVerify = (\<lambda>secret token. None :: unit option), sortByName = (\<lambda>cs. cs),
             accessTokenOf = (\<lambda>v. Some v)\<rparr>
          None ''sb-ref-auth-token'' True None
          \<lparr>pathname = ''/'',
             cookies = [\<lparr>cookie_name = ''sb-ref-auth-token'', cookie_value = ''forged''\<rparr>]\<rparr>) =
     NextResponse ''/'' \<and>
   \<not> valid (fst (verifyJwt (\<lambda>secret token. None :: unit option) (Some ''s3cret'') None ''forged''))"
  using verifyJwt_skipped_when_secret_unset
    [of None "\<lambda>secret token. None :: unit option" "''forged''" "[]"
        "\<lparr>jose_jwtVerify = (\<lambda>secret token. None :: unit option), sortByName = (\<lambda>cs. cs),
           accessTokenOf = (\<lambda>v. Some v)\<rparr>"
        "''sb-ref-auth-token''" True
        "\<lparr>pathname = ''/'',
           cookies = [\<lparr>cookie_name = ''sb-ref-auth-token'', cookie_value = ''forged''\<rparr>]\<rparr>"
        "[''sb-ref-auth-token'']"]
    verifyJwt_skipped_when_secret_unset
    [of "Some ''s3cret''" "\<lambda>secret token. None :: unit option" "''forged''" "[]"
        "\<lparr>jose_jwtVerify = (\<lambda>secret token. None :: unit option), sortByName = (\<lambda>cs. cs),
           accessTokenOf = (\<lambda>v. Some v)\<rparr>"
        "''sb-ref-auth-token''" True
        "\<lparr>pathname = ''/'',
           cookies = [\<lparr>cookie_name = ''sb-ref-auth-token'', cookie_value = ''forged''\<rparr>]\<rparr>"
        "[''sb-ref-auth-token'']"]
  by (simp add: secret_unset_def middleware_def jwt_check_def verifyJwt_def getJwtSecret_def)


section \<open>Proofs: two workers confirming a BLOCK\<close>

lemma length_by_worker: "length sched = count_list sched A + count_list sched B"
proof (induction sched)
  case Nil
  then show ?case by simp
next
  case (Cons w ws)
  then show ?case by (cases w) simp_all
qed

lemma each_twice_interleavings: "each_twice sched = (sched \<in> set interleavings)"
proof
  assume e: "each_twice sched"
  with length_by_worker [of sched] have "length sched = 4"
    by (simp add: each_twice_def)
  then obtain w1 w2 w3 w4 where s: "sched = [w1, w2, w3, w4]"
    by (auto simp: numeral_eq_Suc length_Suc_conv)
  from e show "sched \<in> set interleavings"
    unfolding s each_twice_def interleavings_def
    by (cases w1; cases w2; cases w3; cases w4) simp_all
next
  assume "sched \<in> set interleavings"
  then show "each_twice sched"
    by (auto simp: interleavings_def each_twice_def)
qed

text \<open>Every interleaving ends in the same system state.\<close>

lemma run_interleaving:
  assumes "sched \<in> set interleavings"
  shows "run conditional_write a st sched =
    \<lparr>shared =
       conditional_write
         (st\<lparr>strikes := (strikes st)(a \<mapsto>
            \<lparr>strike_count = strikes_of st a + 2, strike_ttl = strike_window\<rparr>)\<rparr>)
         a \<lparr>ban_state = CONFIRMED, ban_ttl = ttl_for (strikes_of st a + 2)\<rparr>,
     pcA = Done, pcB = Done\<rparr>"
  using assms
  by (auto simp: interleavings_def run_def step_def pc_of_def set_pc_def increment_strikes_def
      strikes_of_def conditional_write_def ban_of_def stronger_def strength_def ttl_for_def
      Let_def split: option.splits)

lemma run_each_twice:
  assumes "each_twice sched"
  shows "run conditional_write a st sched =
    \<lparr>shared =
       conditional_write
         (st\<lparr>strikes := (strikes st)(a \<mapsto>
            \<lparr>strike_count = strikes_of st a + 2, strike_ttl = strike_window\<rparr>)\<rparr>)
         a \<lparr>ban_state = CONFIRMED, ban_ttl = ttl_for (strikes_of st a + 2)\<rparr>,
     pcA = Done, pcB = Done\<rparr>"
  using assms by (simp add: each_twice_interleavings run_interleaving)

text \<open>
  With a plain overwrite the update is lost: from one strike and a provisional ban, in
  the schedule A, B, B, A worker B writes the 86400 s ban of the third strike and worker
  A then overwrites it with the 3600 s ban of the second.
\<close>

lemma plain_write_loses_update:
  "ban_of
     (shared (run plain_write ''U1''
        \<lparr>bans = [''U1'' \<mapsto> \<lparr>ban_state = PROVISIONAL, ban_ttl = 300\<rparr>],
           strikes = [''U1'' \<mapsto> \<lparr>strike_count = 1, strike_ttl = 604800\<rparr>]\<rparr>
        [A, B, B, A]))
     ''U1'' =
   \<lparr>ban_state = CONFIRMED, ban_ttl = 3600\<rparr> \<and>
   strikes_of
     (shared (run plain_write ''U1''
        \<lparr>bans = [''U1'' \<mapsto> \<lparr>ban_state = PROVISIONAL, ban_ttl = 300\<rparr>],
           strikes = [''U1'' \<mapsto> \<lparr>strike_count = 1, strike_ttl = 604800\<rparr>]\<rparr>
        [A, B, B, A]))
     ''U1'' = 3"
  by (simp add: run_def step_def pc_of_def set_pc_def increment_strikes_def strikes_of_def
      plain_write_def ban_of_def ttl_for_def Let_def strike_window_def)

text \<open>
  C2. Two workers confirm a BLOCK for the same actor, each by an atomic increment of the
  strike counter followed by an atomic conditional write of the ban key. In every
  interleaving of their four moves both workers finish, the strike counter has grown by
  two (no increment is lost), and the ban key holds one CONFIRMED record: the stronger of
  the record present before and the record for the higher strike count. When the key
  was absent or PROVISIONAL before, that is CONFIRMED with the TTL of the higher count.
  The result is the same for all interleavings, and the keys of other actors are untouched.
\<close>

theorem concurrent_confirms_converge:
  assumes "each_twice sched"
  shows "pcA (run conditional_write a st sched) = Done \<and>
    pcB (run conditional_write a st sched) = Done \<and>
    strikes (shared (run conditional_write a st sched)) a =
      Some \<lparr>strike_count = strikes_of st a + 2, strike_ttl = strike_window\<rparr> \<and>
    ban_state (ban_of (shared (run conditional_write a st sched)) a) = CONFIRMED \<and>
    ban_of (shared (run conditional_write a st sched)) a =
      (if stronger \<lparr>ban_state = CONFIRMED, ban_ttl = ttl_for (strikes_of st a + 2)\<rparr> (ban_of st a)
       then \<lparr>ban_state = CONFIRMED, ban_ttl = ttl_for (strikes_of st a + 2)\<rparr>
       else ban_of st a) \<and>
    (ban_state (ban_of st a) \<noteq> CONFIRMED \<longrightarrow>
       bans (shared (run conditional_write a st sched)) a =
         Some \<lparr>ban_state = CONFIRMED, ban_ttl = ttl_for (strikes_of st a + 2)\<rparr>) \<and>
    run conditional_write a st sched = run conditional_write a st [A, A, B, B] \<and>
    (\<forall>b. b \<noteq> a \<longrightarrow>
       bans (shared (run conditional_write a st sched)) b = bans st b \<and>
       strikes (shared (run conditional_write a st sched)) b = strikes st b)"
proof -
  have base: "each_twice [A, A, B, B]"
    by (simp add: each_twice_def)
  show ?thesis
    unfolding run_each_twice [OF assms] run_each_twice [OF base]
    by (cases "ban_state (ban_of st a)")
      (auto simp: conditional_write_def ban_of_def stronger_def strength_def
        split: option.splits)
qed

text \<open>
  An instance: actor \<open>U1\<close> has one strike and a provisional ban of 300 s; in the
  schedule A, B, B, A the store ends with three strikes and a CONFIRMED ban of 86400 s.
\<close>

theorem concurrent_confirms_converge_witness:
  "each_twice [A, B, B, A] \<and>
   ban_state
     (ban_of
        \<lparr>bans = [''U1'' \<mapsto> \<lparr>ban_state = PROVISIONAL, ban_ttl = 300\<rparr>],
           strikes = [''U1'' \<mapsto> \<lparr>strike_count = 1, strike_ttl = 604800\<rparr>]\<rparr>
        ''U1'') \<noteq> CONFIRMED \<and>
   bans
     (shared (run conditional_write ''U1''
        \<lparr>bans = [''U1'' \<mapsto> \<lparr>ban_state = PROVISIONAL, ban_ttl = 300\<rparr>],
           strikes = [''U1'' \<mapsto> \<lparr>strike_count = 1, strike_ttl = 604800\<rparr>]\<rparr>
        [A, B, B, A]))
     ''U1'' =
   Some \<lparr>ban_state = CONFIRMED, ban_ttl = 86400\<rparr> \<and>
   strikes
     (shared (run conditional_write ''U1''
        \<lparr>bans = [''U1'' \<mapsto> \<lparr>ban_state = PROVISIONAL, ban_ttl = 300\<rparr>],
           strikes = [''U1'' \<mapsto> \<lparr>strike_count = 1, strike_ttl = 604800\<rparr>]\<rparr>
        [A, B, B, A]))
     ''U1'' =
   Some \<lparr>strike_count = 3, strike_ttl = 604800\<rparr>"
proof -
  let ?st = "\<lparr>bans = [''U1'' \<mapsto> \<lparr>ban_state = PROVISIONAL, ban_ttl = 300\<rparr>],
               strikes = [''U1'' \<mapsto> \<lparr>strike_count = 1, strike_ttl = 604800\<rparr>]\<rparr>"
  have e: "each_twice [A, B, B, A]"
    by (simp add: each_twice_def)
  have k: "strikes_of ?st ''U1'' + 2 = 3"
    by (simp add: strikes_of_def)
  have p: "ban_state (ban_of ?st ''U1'') \<noteq> CONFIRMED"
    by (simp add: ban_of_def)
  have t: "ttl_for 3 = 86400" "strike_window = 604800"
    by (simp_all add: ttl_for_def strike_window_def)
  note c = concurrent_confirms_converge [OF e, of "''U1''" ?st, unfolded k t]
  from c p have "bans (shared (run conditional_write ''U1'' ?st [A, B, B, A])) ''U1'' =
      Some \<lparr>ban_state = CONFIRMED, ban_ttl = 86400\<rparr>"
    by blast
  moreover from c have "strikes (shared (run conditional_write ''U1'' ?st [A, B, B, A])) ''U1'' =
      Some \<lparr>strike_count = 3, strike_ttl = 604800\<rparr>"
    by blast
  ultimately show ?thesis
    using e p by blast
qed

end
